theory Spec2Isabelle
  imports Main "HOL-Library.AList"
begin

section \<open>Derived state hooks of \<open>src/hooks/useDerivedState.ts\<close>\<close>

subsection \<open>Calls that may throw and may touch the surrounding world\<close>

text \<open>
  A call of a JavaScript function runs in a world \<open>'w\<close> (the object heap, the state
  container of the host), either throws a value of type \<open>'e\<close> or returns a value of
  type \<open>'a\<close>, and leaves a world behind. A function of type \<open>void\<close> returns \<open>()\<close>.
\<close>

type_synonym ('w, 'e, 'a) js = "'w \<Rightarrow> ('e + 'a) \<times> 'w"

subsection \<open>The memoised callback\<close>

text \<open>
  Modelled from the spec: \<open>useCallback\<close> is imported from the host framework and is not
  part of the repository. Section 9 of the specification describes it as a memoisation
  cache keyed on the tuple of dependency values and invalidated when any dependency
  changes: the first call stores the function with its dependencies and returns it; a
  later call returns the stored function when the dependencies are the same as the
  stored ones, and otherwise stores and returns the function it was given. The cache of
  one call site is the \<open>slot\<close>, passed in and returned.

  The host compares dependencies by identity. Here a function value is its behaviour, so
  two dependency tuples that the host finds identical are equal in the model. Where the
  model finds two tuples equal that the host tells apart, it answers from the slot and
  the host does not; \<open>memoised_setter\<close> below shows that the callback is the same
  function either way.
\<close>

type_synonym ('d, 'f) memo = "('d \<times> 'f) option"

definition useCallback :: "'f \<Rightarrow> 'd \<Rightarrow> ('d, 'f) memo \<Rightarrow> 'f \<times> ('d, 'f) memo" where
  "useCallback fn deps slot =
     (case slot of
        None \<Rightarrow> (fn, Some (deps, fn))
      | Some (prev, cached) \<Rightarrow>
          if prev = deps then (cached, slot) else (fn, Some (deps, fn)))"

subsection \<open>\<open>useDerivedState\<close>\<close>

text \<open>
  The arrow function handed to \<open>useCallback\<close>,
  \<^verbatim>\<open>(newValue: S) => { setState((o: O) => updater(o, newValue)); }\<close>,
  with the two variables it closes over as parameters. Its body is the single call of
  \<open>setState\<close>; \<open>updater\<close> is not called here but inside the transform that
  \<open>setState\<close> receives, so its result type \<open>'r\<close> is left open. The source's
  variable \<open>o\<close> is written \<open>o'\<close>.
\<close>

type_synonym ('o, 'r, 'h, 'e) parent_setter = "('o \<Rightarrow> 'r) \<Rightarrow> ('h, 'e, unit) js"

type_synonym ('s, 'h, 'e) derived_setter = "'s \<Rightarrow> ('h, 'e, unit) js"

definition setDerivedState ::
  "('o, 'r, 'h, 'e) parent_setter \<Rightarrow> ('o \<Rightarrow> 's \<Rightarrow> 'r) \<Rightarrow> ('s, 'h, 'e) derived_setter" where
  "setDerivedState setState updater newValue = setState (\<lambda>o'. updater o' newValue)"

text \<open>
  \<^verbatim>\<open>const derivedState = getter(currentState);\<close> runs first and may throw; then the
  setter is built by \<open>useCallback\<close> with the dependencies
  \<^verbatim>\<open>[currentState, setState, updater]\<close>; the pair of both is returned. The result carries
  the slot of the \<open>useCallback\<close> call and the world the getter left.
\<close>

type_synonym ('o, 'r, 's, 'h, 'e) setter_slot =
  "('o \<times> ('o, 'r, 'h, 'e) parent_setter \<times> ('o \<Rightarrow> 's \<Rightarrow> 'r), ('s, 'h, 'e) derived_setter) memo"

definition useDerivedState ::
  "'o \<Rightarrow> ('o, 'r, 'h, 'e) parent_setter \<Rightarrow> ('o \<Rightarrow> ('w, 'e, 's) js) \<Rightarrow> ('o \<Rightarrow> 's \<Rightarrow> 'r)
     \<Rightarrow> ('o, 'r, 's, 'h, 'e) setter_slot \<Rightarrow> 'w
     \<Rightarrow> ('e + 's \<times> ('s, 'h, 'e) derived_setter) \<times> ('o, 'r, 's, 'h, 'e) setter_slot \<times> 'w" where
  "useDerivedState currentState setState getter updater slot w =
     (case getter currentState w of
        (Inl err, w') \<Rightarrow> (Inl err, slot, w')
      | (Inr derivedState, w') \<Rightarrow>
          (case useCallback (setDerivedState setState updater)
                            (currentState, setState, updater) slot of
             (setDerived, slot') \<Rightarrow> (Inr (derivedState, setDerived), slot', w')))"

subsection \<open>Objects on a heap\<close>

text \<open>
  \<open>useDerivedStateField\<close> reads a property and builds an object with a spread. The
  values it handles are the primitives, references to objects, and the built-in objects
  that every object inherits from, named by their paths. Numbers are the integers and
  \<open>NaN\<close>, the one number that the strict equality \<^verbatim>\<open>===\<close> does not find equal to
  itself. Property names are strings.
\<close>

type_synonym addr = nat

datatype jsval =
    VUndefined
  | VNull
  | VBool bool
  | VNaN
  | VNum int
  | VStr string
  | VRef addr
  | VBuiltin string

type_synonym props = "(string \<times> jsval) list"

text \<open>
  An object has own data properties, enumerable ones (in the order in which its keys are
  enumerated) and others that are not enumerable, and a prototype: the built-in
  \<open>Object.prototype\<close>, none, or another object. An object written as a literal is
  \<open>plain\<close>: all its properties are enumerable and its prototype is
  \<open>Object.prototype\<close>. Accessor properties are not modelled. The heap is the list of the
  objects allocated so far, and the address of an object is its position. A parent state
  is \<open>undefined\<close>, \<open>null\<close> or an object; parent states of primitive type are not
  modelled.
\<close>

datatype link = ObjectPrototype | NoPrototype | Prototype addr

datatype obj = Obj (enumerable: props) (hidden: props) (proto: link)

abbreviation plain :: "props \<Rightarrow> obj" where
  "plain ps \<equiv> Obj ps [] ObjectPrototype"

type_synonym heap = "obj list"

datatype pstate = Undefined | Null | Object addr

datatype jserror = TypeError

text \<open>
  Addresses come from allocation only, so an address in use is below the length of the
  heap. Anything else reads as an empty plain object.
\<close>

definition obj_at :: "heap \<Rightarrow> addr \<Rightarrow> obj" where
  "obj_at h a = (if a < length h then h ! a else plain [])"

text \<open>
  The data properties of the built-in \<open>Object.prototype\<close>. Its one accessor, \<open>__proto__\<close>,
  returns the prototype of the object the property was read from.
\<close>

definition object_prototype :: props where
  "object_prototype =
     [(''constructor'', VBuiltin ''Object''),
      (''__defineGetter__'', VBuiltin ''Object.prototype.__defineGetter__''),
      (''__defineSetter__'', VBuiltin ''Object.prototype.__defineSetter__''),
      (''hasOwnProperty'', VBuiltin ''Object.prototype.hasOwnProperty''),
      (''__lookupGetter__'', VBuiltin ''Object.prototype.__lookupGetter__''),
      (''__lookupSetter__'', VBuiltin ''Object.prototype.__lookupSetter__''),
      (''isPrototypeOf'', VBuiltin ''Object.prototype.isPrototypeOf''),
      (''propertyIsEnumerable'', VBuiltin ''Object.prototype.propertyIsEnumerable''),
      (''toString'', VBuiltin ''Object.prototype.toString''),
      (''valueOf'', VBuiltin ''Object.prototype.valueOf''),
      (''toLocaleString'', VBuiltin ''Object.prototype.toLocaleString'')]"

definition link_value :: "link \<Rightarrow> jsval" where
  "link_value l =
     (case l of
        ObjectPrototype \<Rightarrow> VBuiltin ''Object.prototype''
      | NoPrototype \<Rightarrow> VNull
      | Prototype p \<Rightarrow> VRef p)"

text \<open>
  The search for a property along the prototype chain, from the link \<open>l\<close> on; \<open>recv\<close> is
  the prototype of the object the search started from. A chain has no cycle, so it
  passes through fewer objects than the heap holds; the first argument counts them down.
\<close>

fun inherited :: "nat \<Rightarrow> heap \<Rightarrow> link \<Rightarrow> jsval \<Rightarrow> string \<Rightarrow> jsval" where
  "inherited n h NoPrototype recv k = VUndefined"
| "inherited n h ObjectPrototype recv k =
     (if k = ''__proto__'' then recv
      else (case map_of object_prototype k of None \<Rightarrow> VUndefined | Some v \<Rightarrow> v))"
| "inherited 0 h (Prototype p) recv k = VUndefined"
| "inherited (Suc n) h (Prototype p) recv k =
     (case map_of (enumerable (obj_at h p) @ hidden (obj_at h p)) k of
        Some v \<Rightarrow> v
      | None \<Rightarrow> inherited n h (proto (obj_at h p)) recv k)"

text \<open>
  \<^verbatim>\<open>state[field]\<close>: a \<open>TypeError\<close> on \<open>undefined\<close> and \<open>null\<close>; on an object the value of
  its own property of that name, enumerable or not, else the value found along the
  prototype chain, else \<open>undefined\<close>. The heap is read, not written.
\<close>

definition get_field :: "string \<Rightarrow> pstate \<Rightarrow> (heap, jserror, jsval) js" where
  "get_field field state h =
     (case state of
        Undefined \<Rightarrow> (Inl TypeError, h)
      | Null \<Rightarrow> (Inl TypeError, h)
      | Object a \<Rightarrow>
          (Inr (case map_of (enumerable (obj_at h a) @ hidden (obj_at h a)) field of
                  Some v \<Rightarrow> v
                | None \<Rightarrow>
                    inherited (length h) h (proto (obj_at h a))
                      (link_value (proto (obj_at h a))) field),
           h))"

text \<open>
  The keys of an object are enumerated with the array indices first, in ascending
  order, and the other strings after them in the order of their creation. An array
  index is the decimal numeral, without a leading zero, of a number below \<open>2^32 - 1\<close>.
\<close>

definition digit :: "char \<Rightarrow> nat option" where
  "digit c =
     map_of [(CHR ''0'', 0), (CHR ''1'', 1), (CHR ''2'', 2), (CHR ''3'', 3), (CHR ''4'', 4),
             (CHR ''5'', 5), (CHR ''6'', 6), (CHR ''7'', 7), (CHR ''8'', 8), (CHR ''9'', 9)] c"

fun decimal :: "nat \<Rightarrow> string \<Rightarrow> nat option" where
  "decimal n [] = Some n"
| "decimal n (c # cs) =
     (case digit c of None \<Rightarrow> None | Some d \<Rightarrow> decimal (10 * n + d) cs)"

definition array_index :: "string \<Rightarrow> nat option" where
  "array_index k =
     (case k of
        [] \<Rightarrow> None
      | c # cs \<Rightarrow>
          if c = CHR ''0'' \<and> cs \<noteq> [] then None
          else (case decimal 0 k of
                  None \<Rightarrow> None
                | Some n \<Rightarrow> if n < 4294967295 then Some n else None))"

definition precedes :: "nat \<Rightarrow> string \<times> jsval \<Rightarrow> bool" where
  "precedes n p = (case array_index (fst p) of None \<Rightarrow> False | Some m \<Rightarrow> m < n)"

text \<open>
  Creating the data property \<open>k\<close> with value \<open>v\<close> on an object under construction, all
  of whose properties are enumerable: an existing property keeps its place and takes
  the value; a new array index goes after the smaller indices; any other new key goes
  to the end.
\<close>

definition define_prop :: "string \<Rightarrow> jsval \<Rightarrow> props \<Rightarrow> props" where
  "define_prop k v ps =
     (case map_of ps k of
        Some old \<Rightarrow> AList.update k v ps
      | None \<Rightarrow>
          (case array_index k of
             None \<Rightarrow> ps @ [(k, v)]
           | Some n \<Rightarrow> takeWhile (precedes n) ps @ (k, v) # dropWhile (precedes n) ps))"

text \<open>The properties of \<open>source\<close> created on \<open>target\<close> one after the other.\<close>

definition copy_props :: "props \<Rightarrow> props \<Rightarrow> props" where
  "copy_props target source = foldl (\<lambda>t p. define_prop (fst p) (snd p) t) target source"

text \<open>
  \<^verbatim>\<open>({ ...state, [field]: newValue })\<close>: a new plain object is allocated; the spread
  copies to it the own enumerable properties of \<open>state\<close> (none when \<open>state\<close> is
  \<open>undefined\<close> or \<open>null\<close>, which a spread accepts); then \<open>field\<close> is created.
  Properties that are not enumerable, the prototype and what is inherited from it are not
  copied. The values are copied as they are, a reference as a reference.
\<close>

definition spread_with :: "string \<Rightarrow> pstate \<Rightarrow> jsval \<Rightarrow> (heap, jserror, pstate) js" where
  "spread_with field state newValue h =
     (let source = (case state of Object a \<Rightarrow> enumerable (obj_at h a) | _ \<Rightarrow> [])
      in (Inr (Object (length h)),
          h @ [plain (define_prop field newValue (copy_props [] source))]))"


subsection \<open>\<open>useDerivedStateField\<close>\<close>

definition useDerivedStateField ::
  "pstate \<Rightarrow> (pstate, (heap, jserror, pstate) js, 'h, jserror) parent_setter \<Rightarrow> string
     \<Rightarrow> (pstate, (heap, jserror, pstate) js, jsval, 'h, jserror) setter_slot \<Rightarrow> heap
     \<Rightarrow> (jserror + jsval \<times> (jsval, 'h, jserror) derived_setter)
         \<times> (pstate, (heap, jserror, pstate) js, jsval, 'h, jserror) setter_slot \<times> heap" where
  "useDerivedStateField currentState setState field =
     useDerivedState currentState setState
       (\<lambda>state. get_field field state)
       (\<lambda>state newValue. spread_with field state newValue)"

text \<open>
  The pair of projections that the specification names for a field \<open>k\<close>:
  \<^verbatim>\<open>getter = state => state[k]\<close> and
  \<^verbatim>\<open>updater = (state, newValue) => ({ ...state, [k]: newValue })\<close>.
\<close>

definition field_getter :: "string \<Rightarrow> pstate \<Rightarrow> (heap, jserror, jsval) js" where
  "field_getter k = (\<lambda>state. get_field k state)"

definition field_updater :: "string \<Rightarrow> pstate \<Rightarrow> jsval \<Rightarrow> (heap, jserror, pstate) js" where
  "field_updater k = (\<lambda>state newValue. spread_with k state newValue)"

subsection \<open>What a slot may hold\<close>

text \<open>
  The slot of the \<open>useCallback\<close> call inside \<open>useDerivedState\<close> is empty at the first
  render; later it holds what an earlier call at the same place stored there: the setter
  built from the \<open>setState\<close> and the \<open>updater\<close> among the stored dependencies.
\<close>

definition slot_ok :: "('o, 'r, 's, 'h, 'e) setter_slot \<Rightarrow> bool" where
  "slot_ok slot =
     (case slot of
        None \<Rightarrow> True
      | Some ((currentState, setState, updater), cached) \<Rightarrow>
          cached = setDerivedState setState updater)"

subsection \<open>Parent setters\<close>

text \<open>
  Modelled from the spec: the parent setter belongs to the host and is not part of the
  repository. Section 4.1 asks that it accept a function from parent states to parent
  states and apply it to update the parent state exactly once per call. This one holds
  the parent state next to the world the transform runs in, applies the transform to the
  parent state it holds when it is called, and stores the result; an error of the
  transform leaves the parent state as it was and is thrown on.
\<close>

definition apply_setState :: "('o \<Rightarrow> ('w, 'e, 'o) js) \<Rightarrow> ('o \<times> 'w, 'e, unit) js" where
  "apply_setState transform host =
     (case host of (parent, w) \<Rightarrow>
        (case transform parent w of
           (Inl err, w') \<Rightarrow> (Inl err, (parent, w'))
         | (Inr parent', w') \<Rightarrow> (Inr (), (parent', w'))))"

text \<open>
  A parent setter under observation: it does what \<open>setState\<close> does and appends the
  transform it was called with to a log, one entry for each call.
\<close>

definition recording ::
  "('o, 'r, 'h, 'e) parent_setter \<Rightarrow> ('o, 'r, 'h \<times> ('o \<Rightarrow> 'r) list, 'e) parent_setter" where
  "recording setState transform observed =
     (case observed of (host, log) \<Rightarrow>
        (case setState transform host of
           (res, host') \<Rightarrow> (res, (host', log @ [transform]))))"


subsection \<open>The laws of the specification, as functions\<close>





text \<open>
  The request that section 4.1 ascribes to the derived setter: replace the parent state
  with \<^verbatim>\<open>updater(currentState, v)\<close>, whatever the parent state is by then.
\<close>

definition replace_request ::
  "('o, 'r, 'h, 'e) parent_setter \<Rightarrow> ('o \<Rightarrow> 's \<Rightarrow> 'r) \<Rightarrow> 'o \<Rightarrow> ('s, 'h, 'e) derived_setter" where
  "replace_request setState updater currentState v = setState (\<lambda>o'. updater currentState v)"

subsection \<open>The form of the specification's scenarios\<close>

text \<open>
  The parent state \<^verbatim>\<open>{firstName: "Ann", age: 30}\<close> is the object at address 0. A
  component reads both fields in one render and its event handler then calls
  \<^verbatim>\<open>setFirstName("Bob")\<close> and \<^verbatim>\<open>setAge(31)\<close>.
\<close>

definition form_heap :: heap where
  "form_heap = [plain [(''firstName'', VStr ''Ann''), (''age'', VNum 30)]]"

text \<open>
  A heap with that object and its successor \<^verbatim>\<open>{firstName: "Ann", age: 31}\<close> at
  address 1, as two renders see them one after the other.
\<close>

definition two_forms :: heap where
  "two_forms =
     [plain [(''firstName'', VStr ''Ann''), (''age'', VNum 30)],
      plain [(''firstName'', VStr ''Ann''), (''age'', VNum 31)]]"

definition handler ::
  "(jsval, 'h, jserror) derived_setter \<Rightarrow> (jsval, 'h, jserror) derived_setter \<Rightarrow> ('h, jserror, unit) js" where
  "handler setFirstName setAge host =
     (case setFirstName (VStr ''Bob'') host of
        (Inl err, host') \<Rightarrow> (Inl err, host')
      | (Inr u, host') \<Rightarrow> setAge (VNum 31) host')"

definition form_scenario :: "(jsval \<times> jsval \<times> (jserror + unit) \<times> pstate \<times> heap) option" where
  "form_scenario =
     (case useDerivedStateField (Object 0) apply_setState ''firstName'' None form_heap of
        (Inl err, slot1, h1) \<Rightarrow> None
      | (Inr (firstName, setFirstName), slot1, h1) \<Rightarrow>
          (case useDerivedStateField (Object 0) apply_setState ''age'' None h1 of
             (Inl err, slot2, h2) \<Rightarrow> None
           | (Inr (age, setAge), slot2, h2) \<Rightarrow>
               Some (firstName, age, handler setFirstName setAge (Object 0, h2))))"

text \<open>
  The same render and handler, with the setter for \<open>age\<close> replaced by the request of
  section 4.1 for the state of that render.
\<close>

definition form_scenario_as_specified ::
  "(jsval \<times> jsval \<times> (jserror + unit) \<times> pstate \<times> heap) option" where
  "form_scenario_as_specified =
     (case useDerivedStateField (Object 0) apply_setState ''firstName'' None form_heap of
        (Inl err, slot1, h1) \<Rightarrow> None
      | (Inr (firstName, setFirstName), slot1, h1) \<Rightarrow>
          (case useDerivedStateField (Object 0) apply_setState ''age'' None h1 of
             (Inl err, slot2, h2) \<Rightarrow> None
           | (Inr (age, setAge), slot2, h2) \<Rightarrow>
               Some (firstName, age,
                     handler setFirstName
                       (replace_request apply_setState (field_updater ''age'') (Object 0))
                       (Object 0, h2))))"



section \<open>Properties\<close>

subsection \<open>The hook and its slot\<close>

lemma slot_ok_empty: "slot_ok None"
  by (simp add: slot_ok_def)

lemma useDerivedState_throws:
  assumes "getter currentState w = (Inl err, w')"
  shows "useDerivedState currentState setState getter updater slot w = (Inl err, slot, w')"
  using assms by (simp add: useDerivedState_def)

lemma useDerivedState_returns:
  assumes "getter currentState w = (Inr d, w')"
  shows "useDerivedState currentState setState getter updater slot w =
           (Inr (d, fst (useCallback (setDerivedState setState updater)
                           (currentState, setState, updater) slot)),
            snd (useCallback (setDerivedState setState updater)
                   (currentState, setState, updater) slot),
            w')"
  using assms by (simp add: useDerivedState_def split: prod.splits)

text \<open>
  Whether \<open>useCallback\<close> answers from its slot or not, the setter that comes back is the
  one built from the \<open>setState\<close> and \<open>updater\<close> of this call.
\<close>

lemma memoised_setter:
  assumes "slot_ok slot"
  shows "fst (useCallback (setDerivedState setState updater)
                (currentState, setState, updater) slot) = setDerivedState setState updater"
proof (cases slot)
  case None
  then show ?thesis by (simp add: useCallback_def)
next
  case (Some entry)
  obtain prev cached where entry: "entry = (prev, cached)"
    by (cases entry)
  show ?thesis
  proof (cases "prev = (currentState, setState, updater)")
    case True
    with assms Some entry have "cached = setDerivedState setState updater"
      by (simp add: slot_ok_def)
    with True Some entry show ?thesis by (simp add: useCallback_def)
  next
    case False
    with Some entry show ?thesis by (simp add: useCallback_def)
  qed
qed

lemma returned_setter:
  assumes "slot_ok slot"
    and "useDerivedState currentState setState getter updater slot w = (Inr (d, setDerived), slot', w')"
  shows "setDerived = setDerivedState setState updater"
proof (cases "getter currentState w")
  case (Pair res w0)
  show ?thesis
  proof (cases res)
    case (Inl err)
    with Pair assms(2) show ?thesis
      by (simp add: useDerivedState_throws)
  next
    case (Inr x)
    with Pair assms(2) have
      "setDerived = fst (useCallback (setDerivedState setState updater)
                           (currentState, setState, updater) slot)"
      by (simp add: useDerivedState_returns)
    with assms(1) show ?thesis by (simp add: memoised_setter)
  qed
qed

text \<open>The slot a call leaves behind is again one that a later call may find.\<close>

lemma slot_ok_kept:
  assumes "slot_ok slot"
  shows "slot_ok (fst (snd (useDerivedState currentState setState getter updater slot w)))"
proof (cases "getter currentState w")
  case (Pair res w0)
  show ?thesis
  proof (cases res)
    case (Inl err)
    with Pair assms show ?thesis by (simp add: useDerivedState_throws)
  next
    case (Inr x)
    have "slot_ok (snd (useCallback (setDerivedState setState updater)
                          (currentState, setState, updater) slot))"
      using assms
      by (auto simp: useCallback_def slot_ok_def split: option.splits)
    with Pair Inr show ?thesis by (simp add: useDerivedState_returns)
  qed
qed

subsection \<open>Reading and copying objects\<close>

lemma get_field_reads_only: "snd (get_field k state h) = h"
  by (simp add: get_field_def split: pstate.splits)









text \<open>The definitions that a run on a given heap unfolds.\<close>

lemmas object_defs = get_field_def spread_with_def obj_at_def copy_props_def define_prop_def
  array_index_def precedes_def digit_def object_prototype_def link_value_def

subsection \<open>The derived value\<close>

text \<open>
  C5. The first component of the pair that \<open>useDerivedState\<close> returns is
  \<open>getter(currentState)\<close>: the outcome of the call, with the setter dropped from a
  returned pair, is the outcome of the getter on the \<open>currentState\<close> passed in, for every
  \<open>currentState\<close>, \<open>setState\<close>, \<open>getter\<close> and \<open>updater\<close>, whatever the slot holds.
\<close>

theorem useDerivedState_derived_value:
  "map_sum (\<lambda>err. err) fst (fst (useDerivedState currentState setState getter updater slot w))
     = fst (getter currentState w)"
proof (cases "getter currentState w")
  case (Pair res w0)
  then show ?thesis
    by (cases res) (simp_all add: useDerivedState_throws useDerivedState_returns)
qed

subsection \<open>The field projector is the projector at the field pair\<close>

text \<open>
  C6. For every \<open>currentState\<close>, \<open>setState\<close> and field \<open>k\<close>,
  \<open>useDerivedStateField(currentState, setState, k)\<close> returns what
  \<open>useDerivedState(currentState, setState, getter, updater)\<close> returns for
  \<^verbatim>\<open>getter = state => state[k]\<close> and
  \<^verbatim>\<open>updater = (state, newValue) => ({ ...state, [k]: newValue })\<close>, from every slot and
  heap; it adds nothing of its own.
\<close>

theorem useDerivedStateField_delegates:
  "useDerivedStateField currentState setState k slot h =
     useDerivedState currentState setState (field_getter k) (field_updater k) slot h"
  by (simp add: useDerivedStateField_def field_getter_def field_updater_def)

subsection \<open>A missing parent state\<close>

text \<open>
  C7. When \<open>currentState\<close> is \<open>null\<close> or \<open>undefined\<close>, the call of
  \<open>useDerivedStateField\<close> itself throws the \<open>TypeError\<close> of the field access: no pair is
  returned, and the slot and the heap are as they were, since the getter runs before
  anything else.
\<close>

theorem useDerivedStateField_nullish_throws:
  "useDerivedStateField Null setState k slot h = (Inl TypeError, slot, h) \<and>
   useDerivedStateField Undefined setState k slot h = (Inl TypeError, slot, h)"
  by (simp add: useDerivedStateField_def useDerivedState_throws get_field_def)

subsection \<open>What the derived setter asks of the parent setter\<close>

text \<open>
  C1, as the specification states it: invoking the returned setter with \<open>v\<close> requests
  that the parent state be replaced with \<open>updater(currentState, v)\<close>, for the
  \<open>currentState\<close> of the call that returned the setter. The form refutes it. Both
  setters come from one render of the state \<open>{firstName: "Ann", age: 30}\<close>; after
  \<open>setFirstName("Bob")\<close> the call \<open>setAge(31)\<close> leaves \<open>{firstName: "Bob", age: 31}\<close>,
  where the request as specified would leave \<open>{firstName: "Ann", age: 31}\<close>.
\<close>

theorem replace_request_counterexample:
  "form_scenario = Some (VStr ''Ann'', VNum 30, Inr (), Object 2,
     [plain [(''firstName'', VStr ''Ann''), (''age'', VNum 30)],
      plain [(''firstName'', VStr ''Bob''), (''age'', VNum 30)],
      plain [(''firstName'', VStr ''Bob''), (''age'', VNum 31)]])
   \<and> form_scenario_as_specified = Some (VStr ''Ann'', VNum 30, Inr (), Object 2,
     [plain [(''firstName'', VStr ''Ann''), (''age'', VNum 30)],
      plain [(''firstName'', VStr ''Bob''), (''age'', VNum 30)],
      plain [(''firstName'', VStr ''Ann''), (''age'', VNum 31)]])
   \<and> form_scenario \<noteq> form_scenario_as_specified"
  by (simp add: form_scenario_def form_scenario_as_specified_def useDerivedStateField_def
      useDerivedState_def useCallback_def object_defs form_heap_def
      handler_def setDerivedState_def apply_setState_def field_updater_def
      replace_request_def)

text \<open>
  C1, amended: invoking the returned setter with \<open>v\<close> hands the parent setter the
  transform that maps a parent state \<open>p\<close> to \<open>updater(p, v)\<close>. A parent setter that
  applies the transform replaces the parent state \<open>p\<close> it holds at that moment with
  \<open>updater(p, v)\<close>, or throws what the updater throws and keeps \<open>p\<close>; the result is
  \<open>updater(currentState, v)\<close> when \<open>p\<close> is still the \<open>currentState\<close> of the call that
  returned the setter.
\<close>

theorem setter_applies_updater_to_held_state:
  assumes "slot_ok slot"
    and "useDerivedState currentState apply_setState getter updater slot w
           = (Inr (d, setDerived), slot', w')"
  shows "setDerived v (p, hw) =
           (case updater p v hw of
              (Inl err, hw') \<Rightarrow> (Inl err, (p, hw'))
            | (Inr p', hw') \<Rightarrow> (Inr (), (p', hw')))"
proof -
  from assms have "setDerived = setDerivedState apply_setState updater"
    by (rule returned_setter)
  then show ?thesis
    by (simp add: setDerivedState_def apply_setState_def)
qed

theorem setter_applies_updater_to_held_state_witness:
  "slot_ok (None :: (pstate, (heap, jserror, pstate) js, jsval, pstate \<times> heap, jserror) setter_slot)
   \<and> useDerivedState (Object 0) apply_setState (field_getter ''age'') (field_updater ''age'')
         None form_heap
       = (Inr (VNum 30, setDerivedState apply_setState (field_updater ''age'')),
          Some ((Object 0, apply_setState, field_updater ''age''),
                setDerivedState apply_setState (field_updater ''age'')),
          form_heap)
   \<and> setDerivedState apply_setState (field_updater ''age'') (VNum 31)
        (Object 1, [plain [(''firstName'', VStr ''Ann''), (''age'', VNum 30)],
                    plain [(''firstName'', VStr ''Bob''), (''age'', VNum 30)]])
       = (Inr (), Object 2,
          [plain [(''firstName'', VStr ''Ann''), (''age'', VNum 30)],
           plain [(''firstName'', VStr ''Bob''), (''age'', VNum 30)],
           plain [(''firstName'', VStr ''Bob''), (''age'', VNum 31)]])"
proof -
  have ok: "slot_ok (None :: (pstate, (heap, jserror, pstate) js, jsval, pstate \<times> heap, jserror) setter_slot)"
    by (simp add: slot_ok_def)
  have call: "useDerivedState (Object 0) apply_setState (field_getter ''age'')
         (field_updater ''age'') None form_heap
       = (Inr (VNum 30, setDerivedState apply_setState (field_updater ''age'')),
          Some ((Object 0, apply_setState, field_updater ''age''),
                setDerivedState apply_setState (field_updater ''age'')),
          form_heap)"
    by (simp add: useDerivedState_def useCallback_def field_getter_def
        object_defs form_heap_def)
  show ?thesis
    using ok call
      setter_applies_updater_to_held_state [OF ok call, of "VNum 31" "Object 1"
        "[plain [(''firstName'', VStr ''Ann''), (''age'', VNum 30)],
          plain [(''firstName'', VStr ''Bob''), (''age'', VNum 30)]]"]
    by (simp add: field_updater_def object_defs)
qed

text \<open>
  C2. For every derived value \<open>v\<close>, invoking the returned setter with \<open>v\<close> calls the
  parent setter exactly once, with the transform that maps every parent state \<open>p\<close> to
  \<open>updater(p, v)\<close>. The parent setter is observed through \<open>recording\<close>: the setter's
  outcome is the outcome of one call of \<open>setState\<close> on that transform, and the log grows
  by that one transform.
\<close>

theorem setter_calls_setState_once:
  assumes "slot_ok slot"
    and "useDerivedState currentState (recording setState) getter updater slot w
           = (Inr (d, setDerived), slot', w')"
  shows "setDerived v (host, log)
           = (fst (setState (\<lambda>o'. updater o' v) host),
              (snd (setState (\<lambda>o'. updater o' v) host), log @ [\<lambda>o'. updater o' v]))"
proof -
  from assms have "setDerived = setDerivedState (recording setState) updater"
    by (rule returned_setter)
  then show ?thesis
    by (simp add: setDerivedState_def recording_def split: prod.splits)
qed

theorem setter_calls_setState_once_witness:
  "slot_ok (None :: (pstate, (heap, jserror, pstate) js, jsval,
                     (pstate \<times> heap) \<times> (pstate \<Rightarrow> (heap, jserror, pstate) js) list, jserror) setter_slot)
   \<and> useDerivedState (Object 0) (recording apply_setState) (field_getter ''age'')
         (field_updater ''age'') None form_heap
       = (Inr (VNum 30, setDerivedState (recording apply_setState) (field_updater ''age'')),
          Some ((Object 0, recording apply_setState, field_updater ''age''),
                setDerivedState (recording apply_setState) (field_updater ''age'')),
          form_heap)
   \<and> setDerivedState (recording apply_setState) (field_updater ''age'') (VNum 31)
        ((Object 0, form_heap), [])
       = (Inr (),
          (Object 1, [plain [(''firstName'', VStr ''Ann''), (''age'', VNum 30)],
                      plain [(''firstName'', VStr ''Ann''), (''age'', VNum 31)]]),
          [\<lambda>o'. field_updater ''age'' o' (VNum 31)])"
proof -
  have ok: "slot_ok (None :: (pstate, (heap, jserror, pstate) js, jsval,
                     (pstate \<times> heap) \<times> (pstate \<Rightarrow> (heap, jserror, pstate) js) list, jserror) setter_slot)"
    by (simp add: slot_ok_def)
  have call: "useDerivedState (Object 0) (recording apply_setState) (field_getter ''age'')
         (field_updater ''age'') None form_heap
       = (Inr (VNum 30, setDerivedState (recording apply_setState) (field_updater ''age'')),
          Some ((Object 0, recording apply_setState, field_updater ''age''),
                setDerivedState (recording apply_setState) (field_updater ''age'')),
          form_heap)"
    by (simp add: useDerivedState_def useCallback_def field_getter_def
        object_defs form_heap_def)
  show ?thesis
    using ok call
      setter_calls_setState_once [OF ok call, of "VNum 31" "(Object 0, form_heap)" "[]"]
    by (simp add: apply_setState_def field_updater_def object_defs
        form_heap_def)
qed

subsection \<open>The laws of the field pair\<close>






subsection \<open>Errors\<close>




subsection \<open>Reading twice\<close>

text \<open>
  C9. For every fixed \<open>currentState\<close>, \<open>setState\<close>, \<open>getter\<close> and \<open>updater\<close>, two calls of
  \<open>useDerivedState\<close> with these arguments, the second right after the first with the slot
  and the world the first left, yield the same derived value (or throw the same error).
  The getter is pure, as section 4.1 requires: it leaves the world as it found it.
\<close>

theorem useDerivedState_read_idempotent:
  assumes "snd (getter currentState w) = w"
    and "useDerivedState currentState setState getter updater slot w = (r1, slot1, w1)"
    and "useDerivedState currentState setState getter updater slot1 w1 = (r2, slot2, w2)"
  shows "map_sum (\<lambda>err. err) fst r1 = map_sum (\<lambda>err. err) fst r2 \<and> w2 = w"
proof -
  obtain gres gw where g: "getter currentState w = (gres, gw)"
    by (cases "getter currentState w")
  with assms(1) have gw: "gw = w" by simp
  have first: "map_sum (\<lambda>err. err) fst r1 = gres \<and> w1 = w"
    using assms(2) g gw
    by (cases gres) (auto simp: useDerivedState_throws useDerivedState_returns)
  then have second: "map_sum (\<lambda>err. err) fst r2 = gres \<and> w2 = w"
    using assms(3) g gw
    by (cases gres) (auto simp: useDerivedState_throws useDerivedState_returns)
  from first second show ?thesis by simp
qed

theorem useDerivedState_read_idempotent_witness:
  "snd (field_getter ''firstName'' (Object 0) form_heap) = form_heap
   \<and> useDerivedState (Object 0) (apply_setState :: (pstate, (heap, jserror, pstate) js, pstate \<times> heap, jserror) parent_setter)
         (field_getter ''firstName'') (field_updater ''firstName'') None form_heap
       = (Inr (VStr ''Ann'', setDerivedState apply_setState (field_updater ''firstName'')),
          Some ((Object 0, apply_setState, field_updater ''firstName''),
                setDerivedState apply_setState (field_updater ''firstName'')),
          form_heap)
   \<and> useDerivedState (Object 0) (apply_setState :: (pstate, (heap, jserror, pstate) js, pstate \<times> heap, jserror) parent_setter)
         (field_getter ''firstName'') (field_updater ''firstName'')
         (Some ((Object 0, apply_setState, field_updater ''firstName''),
                setDerivedState apply_setState (field_updater ''firstName''))) form_heap
       = (Inr (VStr ''Ann'', setDerivedState apply_setState (field_updater ''firstName'')),
          Some ((Object 0, apply_setState, field_updater ''firstName''),
                setDerivedState apply_setState (field_updater ''firstName'')),
          form_heap)"
proof -
  have pure: "snd (field_getter ''firstName'' (Object 0) form_heap) = form_heap"
    by (simp add: field_getter_def get_field_reads_only)
  have first: "useDerivedState (Object 0) (apply_setState :: (pstate, (heap, jserror, pstate) js, pstate \<times> heap, jserror) parent_setter)
         (field_getter ''firstName'') (field_updater ''firstName'') None form_heap
       = (Inr (VStr ''Ann'', setDerivedState apply_setState (field_updater ''firstName'')),
          Some ((Object 0, apply_setState, field_updater ''firstName''),
                setDerivedState apply_setState (field_updater ''firstName'')),
          form_heap)"
    by (simp add: useDerivedState_def useCallback_def field_getter_def
        object_defs form_heap_def)
  have second: "useDerivedState (Object 0) (apply_setState :: (pstate, (heap, jserror, pstate) js, pstate \<times> heap, jserror) parent_setter)
         (field_getter ''firstName'') (field_updater ''firstName'')
         (Some ((Object 0, apply_setState, field_updater ''firstName''),
                setDerivedState apply_setState (field_updater ''firstName''))) form_heap
       = (Inr (VStr ''Ann'', setDerivedState apply_setState (field_updater ''firstName'')),
          Some ((Object 0, apply_setState, field_updater ''firstName''),
                setDerivedState apply_setState (field_updater ''firstName'')),
          form_heap)"
    by (simp add: useDerivedState_def useCallback_def field_getter_def
        object_defs form_heap_def)
  show ?thesis
    using pure first second useDerivedState_read_idempotent [OF pure first second]
    by simp
qed

subsection \<open>The setter and the state it was made from\<close>

text \<open>
  C10. What the returned setter does is independent of \<open>currentState\<close>. For any two
  parent states \<open>s1\<close> and \<open>s2\<close> and the same \<open>setState\<close>, \<open>getter\<close>, \<open>updater\<close> and
  \<open>v\<close>, the setters that \<open>useDerivedState\<close> returns for \<open>s1\<close> and for \<open>s2\<close> do the same
  when invoked with \<open>v\<close>, and each passes \<open>setState\<close> the one transform that maps \<open>p\<close> to
  \<open>updater(p, v)\<close>; this holds whether \<open>useCallback\<close> answers from a slot filled for
  another state or not.
\<close>

theorem setter_ignores_currentState:
  assumes "slot_ok slotA" and "slot_ok slotB"
    and "useDerivedState s1 (recording setState) getter updater slotA wA
           = (Inr (d1, set1), slotA', wA')"
    and "useDerivedState s2 (recording setState) getter updater slotB wB
           = (Inr (d2, set2), slotB', wB')"
  shows "set1 v = set2 v
       \<and> snd (snd (set1 v (host, []))) = [\<lambda>o'. updater o' v]
       \<and> snd (snd (set2 v (host, []))) = [\<lambda>o'. updater o' v]"
proof -
  have "set1 = setDerivedState (recording setState) updater"
    using assms(1,3) by (rule returned_setter)
  moreover have "set2 = setDerivedState (recording setState) updater"
    using assms(2,4) by (rule returned_setter)
  ultimately show ?thesis
    by (simp add: setDerivedState_def recording_def split: prod.splits)
qed

theorem setter_ignores_currentState_witness:
  "slot_ok (None :: (pstate, (heap, jserror, pstate) js, jsval,
                     (pstate \<times> heap) \<times> (pstate \<Rightarrow> (heap, jserror, pstate) js) list, jserror) setter_slot)
   \<and> slot_ok (Some ((Object 0, recording apply_setState, field_updater ''age''),
                     setDerivedState (recording apply_setState) (field_updater ''age'')))
   \<and> useDerivedState (Object 0) (recording apply_setState) (field_getter ''age'')
         (field_updater ''age'') None two_forms
       = (Inr (VNum 30, setDerivedState (recording apply_setState) (field_updater ''age'')),
          Some ((Object 0, recording apply_setState, field_updater ''age''),
                setDerivedState (recording apply_setState) (field_updater ''age'')),
          two_forms)
   \<and> useDerivedState (Object 1) (recording apply_setState) (field_getter ''age'')
         (field_updater ''age'')
         (Some ((Object 0, recording apply_setState, field_updater ''age''),
                setDerivedState (recording apply_setState) (field_updater ''age''))) two_forms
       = (Inr (VNum 31, setDerivedState (recording apply_setState) (field_updater ''age'')),
          Some ((Object 1, recording apply_setState, field_updater ''age''),
                setDerivedState (recording apply_setState) (field_updater ''age'')),
          two_forms)
   \<and> snd (snd (setDerivedState (recording apply_setState) (field_updater ''age'') (VNum 32)
                  ((Object 1, two_forms), [])))
       = [\<lambda>o'. field_updater ''age'' o' (VNum 32)]"
proof -
  have okA: "slot_ok (None :: (pstate, (heap, jserror, pstate) js, jsval,
                     (pstate \<times> heap) \<times> (pstate \<Rightarrow> (heap, jserror, pstate) js) list, jserror) setter_slot)"
    by (simp add: slot_ok_def)
  have okB: "slot_ok (Some ((Object 0, recording apply_setState, field_updater ''age''),
                     setDerivedState (recording apply_setState) (field_updater ''age'')))"
    by (simp add: slot_ok_def)
  have callA: "useDerivedState (Object 0) (recording apply_setState) (field_getter ''age'')
         (field_updater ''age'') None two_forms
       = (Inr (VNum 30, setDerivedState (recording apply_setState) (field_updater ''age'')),
          Some ((Object 0, recording apply_setState, field_updater ''age''),
                setDerivedState (recording apply_setState) (field_updater ''age'')),
          two_forms)"
    by (simp add: useDerivedState_def useCallback_def field_getter_def
        object_defs two_forms_def)
  have callB: "useDerivedState (Object 1) (recording apply_setState) (field_getter ''age'')
         (field_updater ''age'')
         (Some ((Object 0, recording apply_setState, field_updater ''age''),
                setDerivedState (recording apply_setState) (field_updater ''age''))) two_forms
       = (Inr (VNum 31, setDerivedState (recording apply_setState) (field_updater ''age'')),
          Some ((Object 1, recording apply_setState, field_updater ''age''),
                setDerivedState (recording apply_setState) (field_updater ''age'')),
          two_forms)"
    by (simp add: useDerivedState_def useCallback_def field_getter_def
        object_defs two_forms_def)
  show ?thesis
    using okA okB callA callB
      setter_ignores_currentState [OF okA okB callA callB, of "VNum 32" "(Object 1, two_forms)"]
    by simp
qed

end
